theory Spec2Isabelle
  imports Complex_Main
begin

section \<open>The language-model environment of \<^verbatim>\<open>lm_env2.py\<close>\<close>

text \<open>
  The module keeps a dialogue history (\<^verbatim>\<open>TextHistory\<close>) and wraps a language model
  in a turn-based environment (\<^verbatim>\<open>TextEnvironment\<close>). The model, the tokenizer and
  the reward function are external: they are fields of the environment, functions that
  either return a value or raise. Tensors of token ids are lists of Python integers, and a
  float tensor is a list of reals (every token id and every mask value is a small integer,
  which \<^verbatim>\<open>.float()\<close> keeps as it is). A Python string is a list of characters, and
  \<^verbatim>\<open>len\<close> is its length.

  Methods mutate \<^verbatim>\<open>self\<close> and may raise after a part of the mutation is done, so
  each method returns the object as the call leaves it, paired with the exception (\<open>Inl\<close>)
  or the value returned (\<open>Inr\<close>).
\<close>

subsection \<open>Data\<close>

definition obs_dim :: nat where
  "obs_dim = 8"

datatype error = ValueError | TypeError | AttributeError | ServiceError

text \<open>
  The attributes of a \<^verbatim>\<open>TextHistory\<close>. The name \<open>text\<close> is a keyword of the theory
  language, so that attribute is \<open>text_h\<close>. \<^verbatim>\<open>tokens\<close> is \<open>None\<close> or a tensor, as the
  tests \<^verbatim>\<open>is None\<close> of the source read it. \<^verbatim>\<open>completed\<close> is \<open>None\<close> while the
  attribute has not been assigned: reading it then raises \<^verbatim>\<open>AttributeError\<close>.
  \<^verbatim>\<open>text_spans\<close> is a list in every object: the constructor assigns \<^verbatim>\<open>[]\<close> and
  nothing else assigns the attribute.
\<close>

record TextHistory =
  text_h :: string
  text_spans :: "(nat \<times> nat) list"
  tokens :: "int list option"
  completed :: "bool option"

text \<open>
  The environment. \<open>model_generate\<close> is \<^verbatim>\<open>self.model.generate\<close> with the generation
  arguments applied: from the prompt to the completed sequence, prompt included.
  \<open>tokenizer_encode\<close> is \<^verbatim>\<open>self.tokenizer(query, return_tensors="pt").input_ids[0]\<close>,
  \<open>tokenizer_decode\<close> is \<^verbatim>\<open>self.tokenizer.decode\<close>, and \<open>reward_fn\<close> is
  \<^verbatim>\<open>self.reward_fn\<close> applied to the model. The reward is of any type \<open>'r\<close>: the
  environment passes it on and never reads it.
\<close>

record 'r TextEnvironment =
  model_generate :: "int list \<Rightarrow> error + int list"
  tokenizer_encode :: "string \<Rightarrow> error + int list"
  tokenizer_decode :: "int list \<Rightarrow> error + string"
  reward_fn :: "int list \<Rightarrow> int list \<Rightarrow> error + 'r"
  max_turns :: int
  turn :: int
  history :: TextHistory

text \<open>
  What a caller may pass to \<^verbatim>\<open>step\<close>, and \<^verbatim>\<open>str\<close> on it: \<^verbatim>\<open>None\<close>, a string,
  or an object of another class, given by what its \<^verbatim>\<open>__str__\<close> does (it returns a
  text or raises).
\<close>

datatype pyval = PyNone | PyStr string | PyObject "error + string"

fun py_str :: "pyval \<Rightarrow> error + string" where
  "py_str PyNone = Inr ''None''"
| "py_str (PyStr s) = Inr s"
| "py_str (PyObject r) = r"

subsection \<open>\<^verbatim>\<open>TextHistory\<close>\<close>

text \<open>
  \<^verbatim>\<open>append_segment\<close>: the check raises before anything is assigned.
  \<^verbatim>\<open>torch.cat\<close> raises \<^verbatim>\<open>TypeError\<close> on \<open>None\<close>, after the text and the span have
  been written. \<^verbatim>\<open>self.tokens[-obs_dim:]\<close> is the last \<open>obs_dim\<close> entries.
\<close>

definition append_segment ::
  "TextHistory \<Rightarrow> string \<Rightarrow> int list \<Rightarrow> TextHistory \<times> (error + unit)" where
  "append_segment self txt toks =
     (if length txt = 0 \<or> length toks = 0 then (self, Inl ValueError)
      else
        let original_text_length = length (text_h self);
            self = self\<lparr>text_h := text_h self @ txt\<rparr>;
            self = self\<lparr>text_spans :=
                     text_spans self @ [(original_text_length, length (text_h self))]\<rparr>
        in (case tokens self of
              None \<Rightarrow> (self, Inl TypeError)
            | Some old \<Rightarrow>
                let self = self\<lparr>tokens := Some (old @ toks)\<rparr>
                in if length (old @ toks) > obs_dim
                   then (self\<lparr>tokens :=
                           Some (drop (length (old @ toks) - obs_dim) (old @ toks))\<rparr>, Inr ())
                   else (self, Inr ())))"

text \<open>
  \<^verbatim>\<open>__init__\<close>: with an empty text it returns before \<^verbatim>\<open>completed\<close> is assigned.
  Otherwise it stores the text and the tokens and then appends them as a segment;
  \<^verbatim>\<open>len(tokens)\<close> in \<^verbatim>\<open>append_segment\<close> raises \<^verbatim>\<open>TypeError\<close> when the tokens
  are \<open>None\<close>. An exception leaves no object.
\<close>

definition TextHistory_init :: "string \<Rightarrow> int list option \<Rightarrow> error + TextHistory" where
  "TextHistory_init txt toks =
     (if length txt = 0
      then Inr \<lparr>text_h = [], text_spans = [], tokens = Some [], completed = None\<rparr>
      else
        (case toks of
           None \<Rightarrow> Inl TypeError
         | Some ts \<Rightarrow>
             (case append_segment
                     \<lparr>text_h = txt, text_spans = [], tokens = Some ts, completed = Some False\<rparr>
                     txt ts of
                (self, Inl e) \<Rightarrow> Inl e
              | (self, Inr u) \<Rightarrow> Inr self)))"

text \<open>
  \<^verbatim>\<open>mask[a:b] = v\<close> on a tensor: the positions from \<open>a\<close> up to \<open>b\<close> that exist are
  written, the others are ignored (slices are clipped, they do not raise).
\<close>

definition slice_assign :: "'a list \<Rightarrow> nat \<Rightarrow> nat \<Rightarrow> 'a \<Rightarrow> 'a list" where
  "slice_assign xs a b v =
     map (\<lambda>(p, x). if a \<le> p \<and> p < b then v else x) (zip [0..<length xs] xs)"

text \<open>
  The loop of \<^verbatim>\<open>to_obs\<close> over \<^verbatim>\<open>range(len(self.text_spans))\<close>, from index \<open>i\<close>
  (the tensor \<^verbatim>\<open>mask\<close> is \<open>msk\<close>: \<open>mask\<close> is a constant of the library).
\<close>

fun mask_loop :: "nat \<Rightarrow> (nat \<times> nat) list \<Rightarrow> real list \<Rightarrow> real list" where
  "mask_loop i [] msk = msk"
| "mask_loop i (sli # rest) msk =
     mask_loop (i + 1) rest
       (if i mod 2 = 0 then slice_assign msk (fst sli) (snd sli) 1
        else slice_assign msk (fst sli) (snd sli) 2)"

definition to_obs :: "TextHistory \<Rightarrow> real list \<times> real list" where
  "to_obs self =
     (let obs = (case tokens self of Some t \<Rightarrow> t | None \<Rightarrow> []);
          obs = (if length obs < obs_dim then obs @ replicate (obs_dim - length obs) 0
                 else obs);
          obs = map real_of_int obs;
          msk = map (\<lambda>x. 0) obs
      in (obs, mask_loop 0 (text_spans self) msk))"

subsection \<open>\<^verbatim>\<open>TextEnvironment\<close>\<close>

definition TextEnvironment_init ::
  "(int list \<Rightarrow> error + int list) \<Rightarrow> (string \<Rightarrow> error + int list) \<Rightarrow>
   (int list \<Rightarrow> error + string) \<Rightarrow> (int list \<Rightarrow> int list \<Rightarrow> error + 'r) \<Rightarrow> int \<Rightarrow>
   error + 'r TextEnvironment" where
  "TextEnvironment_init gen enc dec rew mt =
     (case TextHistory_init [] None of
        Inl e \<Rightarrow> Inl e
      | Inr h \<Rightarrow> Inr \<lparr>model_generate = gen, tokenizer_encode = enc, tokenizer_decode = dec,
                     reward_fn = rew, max_turns = mt, turn = 0, history = h\<rparr>)"

definition reset ::
  "'r TextEnvironment \<Rightarrow> 'r TextEnvironment \<times> (error + real list \<times> real list)" where
  "reset self =
     (case TextHistory_init [] None of
        Inl e \<Rightarrow> (self, Inl e)
      | Inr h \<Rightarrow>
          let self = self\<lparr>history := h\<rparr>;
              self = self\<lparr>turn := 0\<rparr>
          in (self, Inr (to_obs (history self))))"

text \<open>
  \<^verbatim>\<open>_generate\<close> (a name cannot begin with an underscore here): the batch mask is all
  ones, so its sum is the length of the prompt, and the slice drops that many entries of
  the completed sequence.
\<close>

definition private_generate :: "'r TextEnvironment \<Rightarrow> int list \<Rightarrow> error + int list" where
  "private_generate self query_tensors =
     (case model_generate self query_tensors of
        Inl e \<Rightarrow> Inl e
      | Inr generation \<Rightarrow> Inr (drop (length query_tensors) generation))"

text \<open>\<^verbatim>\<open>generate\<close>; \<^verbatim>\<open>unsqueeze\<close> on \<open>None\<close> raises \<^verbatim>\<open>AttributeError\<close>.\<close>

definition generate :: "'r TextEnvironment \<Rightarrow> 'r TextEnvironment \<times> (error + int list)" where
  "generate self =
     (case tokens (history self) of
        None \<Rightarrow> (self, Inl AttributeError)
      | Some query_tensors \<Rightarrow>
          (case private_generate self query_tensors of
             Inl e \<Rightarrow> (self, Inl e)
           | Inr response_tensors \<Rightarrow>
               (case tokenizer_decode self response_tensors of
                  Inl e \<Rightarrow> (self, Inl e)
                | Inr response_texts \<Rightarrow>
                    (case append_segment (history self) response_texts response_tensors of
                       (h, Inl e) \<Rightarrow> (self\<lparr>history := h\<rparr>, Inl e)
                     | (h, Inr u) \<Rightarrow> (self\<lparr>history := h\<rparr>, Inr response_tensors)))))"

text \<open>
  The first half of \<^verbatim>\<open>step\<close>: the query is tokenized and put into the history,
  by the constructor when the history has no tokens, by \<^verbatim>\<open>append_segment\<close> otherwise.
\<close>

definition step_query ::
  "'r TextEnvironment \<Rightarrow> string \<Rightarrow> 'r TextEnvironment \<times> (error + int list)" where
  "step_query self query =
     (case tokens (history self) of
        None \<Rightarrow>
          (case tokenizer_encode self query of
             Inl e \<Rightarrow> (self, Inl e)
           | Inr query_tokens \<Rightarrow>
               (case TextHistory_init query (Some query_tokens) of
                  Inl e \<Rightarrow> (self, Inl e)
                | Inr h \<Rightarrow> (self\<lparr>history := h\<rparr>, Inr query_tokens)))
      | Some t \<Rightarrow>
          (case tokenizer_encode self query of
             Inl e \<Rightarrow> (self, Inl e)
           | Inr query_tokens \<Rightarrow>
               (case append_segment (history self) query query_tokens of
                  (h, Inl e) \<Rightarrow> (self\<lparr>history := h\<rparr>, Inl e)
                | (h, Inr u) \<Rightarrow> (self\<lparr>history := h\<rparr>, Inr query_tokens))))"

text \<open>
  \<^verbatim>\<open>step\<close>: the result is the observation, the reward, \<^verbatim>\<open>self.history.completed\<close>
  and the mask of the \<^verbatim>\<open>info\<close> dictionary.
\<close>

definition step ::
  "'r TextEnvironment \<Rightarrow> pyval \<Rightarrow>
   'r TextEnvironment \<times> (error + real list \<times> 'r \<times> bool \<times> real list)" where
  "step self q =
     (case py_str q of
        Inl e \<Rightarrow> (self, Inl e)
      | Inr query \<Rightarrow>
          (case step_query self query of
             (self, Inl e) \<Rightarrow> (self, Inl e)
           | (self, Inr query_tokens) \<Rightarrow>
               (case generate self of
                  (self, Inl e) \<Rightarrow> (self, Inl e)
                | (self, Inr response_tokens) \<Rightarrow>
                    (case reward_fn self query_tokens response_tokens of
                       Inl e \<Rightarrow> (self, Inl e)
                     | Inr rew \<Rightarrow>
                         let self = self\<lparr>turn := turn self + 1\<rparr>;
                             done = (turn self \<ge> max_turns self);
                             self = self\<lparr>history := (history self)\<lparr>completed := Some done\<rparr>\<rparr>;
                             (obs, msk) = to_obs (history self)
                         in (self, Inr (obs, rew, done, msk))))))"

subsection \<open>Runs of calls\<close>

text \<open>
  A caller's sequence of \<^verbatim>\<open>append_segment\<close> calls on one history, and of \<^verbatim>\<open>step\<close>
  calls on one environment (the loop of \<^verbatim>\<open>test_env\<close>). A run stops at the first
  exception; the run of steps collects the \<^verbatim>\<open>done\<close> flags returned.
\<close>

fun append_all ::
  "TextHistory \<Rightarrow> (string \<times> int list) list \<Rightarrow> TextHistory \<times> (error + unit)" where
  "append_all h [] = (h, Inr ())"
| "append_all h ((txt, toks) # segs) =
     (case append_segment h txt toks of
        (h', Inl e) \<Rightarrow> (h', Inl e)
      | (h', Inr u) \<Rightarrow> append_all h' segs)"

fun steps ::
  "'r TextEnvironment \<Rightarrow> pyval list \<Rightarrow> 'r TextEnvironment \<times> (error + bool list)" where
  "steps env [] = (env, Inr [])"
| "steps env (q # qs) =
     (case step env q of
        (env', Inl e) \<Rightarrow> (env', Inl e)
      | (env', Inr (obs, rew, done, msk)) \<Rightarrow>
          (case steps env' qs of
             (env'', Inl e) \<Rightarrow> (env'', Inl e)
           | (env'', Inr ds) \<Rightarrow> (env'', Inr (done # ds))))"

subsection \<open>The mask in the words of the specification\<close>

text \<open>
  The specification's mask: 1 at a position covered by a span of even index, 2 at a
  position covered by a span of odd index, 0 elsewhere. \<open>mask_spec\<close> is written from
  these words, to be compared with the loop of \<^verbatim>\<open>to_obs\<close>.
\<close>

definition covers :: "(nat \<times> nat) list \<Rightarrow> nat \<Rightarrow> nat \<Rightarrow> bool" where
  "covers spans i p \<longleftrightarrow> i < length spans \<and> fst (spans ! i) \<le> p \<and> p < snd (spans ! i)"

definition mask_spec :: "(nat \<times> nat) list \<Rightarrow> nat \<Rightarrow> real" where
  "mask_spec spans p =
     (if \<exists>i \<in> set [0..<length spans]. even i \<and> covers spans i p then 1
      else if \<exists>i \<in> set [0..<length spans]. odd i \<and> covers spans i p then 2
      else 0)"

text \<open>
  What the constructor establishes and every successful append keeps: the tokens are a
  tensor of at most \<open>obs_dim\<close> entries, every span is non-empty and inside the text, and
  the spans follow one another without overlap.
\<close>

definition hist_inv :: "TextHistory \<Rightarrow> bool" where
  "hist_inv h \<longleftrightarrow>
     (\<exists>t. tokens h = Some t \<and> length t \<le> obs_dim) \<and>
     (\<forall>i < length (text_spans h).
        fst (text_spans h ! i) < snd (text_spans h ! i) \<and>
        snd (text_spans h ! i) \<le> length (text_h h)) \<and>
     (\<forall>i j. i < j \<and> j < length (text_spans h) \<longrightarrow>
        snd (text_spans h ! i) \<le> fst (text_spans h ! j))"

subsection \<open>Stub services\<close>

text \<open>
  The stubs of the specification's worked example: the tokenizer maps \<^verbatim>\<open>"hi"\<close> to
  \<open>[1, 2]\<close> (and any other text to one token per character), and the model completes
  every prompt with \<open>[3, 4, 5]\<close>, so that \<^verbatim>\<open>_generate\<close>, which strips the prompt,
  returns \<open>[3, 4, 5]\<close> for any input. Two decoders: one character per token, and one
  that returns a five-character word whatever the tokens. A reward that is 0, and
  a tokenizer, a model and a reward function that raise.
\<close>

definition stub_encode :: "string \<Rightarrow> error + int list" where
  "stub_encode s = (if s = ''hi'' then Inr [1, 2] else Inr (map (\<lambda>c. 7) s))"

definition stub_encode_fails :: "string \<Rightarrow> error + int list" where
  "stub_encode_fails s = Inl ServiceError"

definition stub_generate :: "int list \<Rightarrow> error + int list" where
  "stub_generate q = Inr (q @ [3, 4, 5])"

definition stub_generate_fails :: "int list \<Rightarrow> error + int list" where
  "stub_generate_fails q = Inl ServiceError"

definition stub_decode_chars :: "int list \<Rightarrow> error + string" where
  "stub_decode_chars t = Inr (map (\<lambda>i. CHR ''x'') t)"

definition stub_decode_hello :: "int list \<Rightarrow> error + string" where
  "stub_decode_hello t = Inr ''hello''"

definition stub_reward :: "int list \<Rightarrow> int list \<Rightarrow> error + real" where
  "stub_reward q r = Inr 0"

definition stub_reward_fails :: "int list \<Rightarrow> int list \<Rightarrow> error + real" where
  "stub_reward_fails q r = Inl ServiceError"

definition stub_env ::
  "(int list \<Rightarrow> error + string) \<Rightarrow> (int list \<Rightarrow> int list \<Rightarrow> error + real) \<Rightarrow> int \<Rightarrow> int \<Rightarrow>
   real TextEnvironment" where
  "stub_env dec rew mt t =
     \<lparr>model_generate = stub_generate, tokenizer_encode = stub_encode, tokenizer_decode = dec,
      reward_fn = rew, max_turns = mt, turn = t,
      history = \<lparr>text_h = [], text_spans = [], tokens = Some [], completed = None\<rparr>\<rparr>"

section \<open>Properties\<close>

subsection \<open>Appending segments\<close>

lemma append_segment_reject:
  "tx = [] \<or> toks = [] \<Longrightarrow> append_segment h tx toks = (h, Inl ValueError)"
  by (auto simp: append_segment_def)

lemma append_segment_accept:
  "tx \<noteq> [] \<Longrightarrow> toks \<noteq> [] \<Longrightarrow> tokens h = Some old \<Longrightarrow>
   append_segment h tx toks =
     (h\<lparr>text_h := text_h h @ tx,
        text_spans := text_spans h @ [(length (text_h h), length (text_h h) + length tx)],
        tokens := Some (drop (length (old @ toks) - obs_dim) (old @ toks))\<rparr>, Inr ())"
  by (auto simp: append_segment_def Let_def)

lemma append_segment_no_tokens:
  "tx \<noteq> [] \<Longrightarrow> toks \<noteq> [] \<Longrightarrow> tokens h = None \<Longrightarrow>
   snd (append_segment h tx toks) = Inl TypeError"
  by (auto simp: append_segment_def Let_def)

lemma append_segment_InrD:
  assumes "append_segment h tx toks = (h', Inr u)"
  shows "tx \<noteq> [] \<and> toks \<noteq> [] \<and> (\<exists>old. tokens h = Some old \<and>
     h' = h\<lparr>text_h := text_h h @ tx,
        text_spans := text_spans h @ [(length (text_h h), length (text_h h) + length tx)],
        tokens := Some (drop (length (old @ toks) - obs_dim) (old @ toks))\<rparr>)"
proof -
  have ne: "tx \<noteq> [] \<and> toks \<noteq> []"
    using assms append_segment_reject [of tx toks h] by auto
  show ?thesis
  proof (cases "tokens h")
    case None
    with ne assms append_segment_no_tokens [of tx toks h] show ?thesis by simp
  next
    case (Some old)
    with ne assms append_segment_accept [of tx toks h old] show ?thesis by simp
  qed
qed

lemma keep_last_absorb:
  "drop (length (drop (length (xs::'a list) - n) xs @ ys) - n) (drop (length xs - n) xs @ ys) =
   drop (length (xs @ ys) - n) (xs @ ys)"
  by (cases "length xs \<le> n") (auto simp: ac_simps)

lemma append_all_tokens:
  "tokens h = Some t0 \<Longrightarrow> length t0 \<le> obs_dim \<Longrightarrow> append_all h segs = (h', Inr ()) \<Longrightarrow>
   tokens h' = Some (drop (length (t0 @ concat (map snd segs)) - obs_dim)
                       (t0 @ concat (map snd segs)))"
proof (induction segs arbitrary: h t0)
  case Nil
  then show ?case by simp
next
  case (Cons seg segs)
  obtain tx toks where seg: "seg = (tx, toks)" by (cases seg)
  obtain h1 r where a: "append_segment h tx toks = (h1, r)" by (cases "append_segment h tx toks")
  with Cons.prems seg have r: "r = Inr ()" and rest: "append_all h1 segs = (h', Inr ())"
    by (auto split: sum.splits)
  from a r append_segment_InrD [of h tx toks h1 "()"] Cons.prems(1)
  have t1: "tokens h1 = Some (drop (length (t0 @ toks) - obs_dim) (t0 @ toks))"
    by auto
  have "length (drop (length (t0 @ toks) - obs_dim) (t0 @ toks)) \<le> obs_dim"
    by simp
  from Cons.IH [OF t1 this rest] show ?case
    using keep_last_absorb [of "t0 @ toks" obs_dim "concat (map snd segs)"]
    by (simp add: seg)
qed


subsection \<open>The turn counter\<close>

lemma step_query_frame:
  "turn (fst (step_query env s)) = turn env \<and> max_turns (fst (step_query env s)) = max_turns env"
  by (simp add: step_query_def split: option.splits sum.splits prod.splits)

lemma generate_frame:
  "turn (fst (generate env)) = turn env \<and> max_turns (fst (generate env)) = max_turns env"
  by (simp add: generate_def split: option.splits sum.splits prod.splits)

lemma step_turn:
  assumes "step env q = (env', r)"
  shows "max_turns env' = max_turns env \<and>
         (case r of
            Inl e \<Rightarrow> turn env' = turn env
          | Inr (obs, rew, d, m) \<Rightarrow> turn env' = turn env + 1 \<and> d = (max_turns env \<le> turn env + 1))"
proof (cases "py_str q")
  case (Inl e)
  with assms show ?thesis by (auto simp: step_def)
next
  case (Inr s)
  obtain env1 r1 where q: "step_query env s = (env1, r1)" by (cases "step_query env s")
  obtain env2 r2 where g: "generate env1 = (env2, r2)" by (cases "generate env1")
  from q step_query_frame [of env s]
  have f1: "turn env1 = turn env" "max_turns env1 = max_turns env" by simp_all
  from g generate_frame [of env1] f1
  have f2: "turn env2 = turn env" "max_turns env2 = max_turns env" by simp_all
  show ?thesis
  proof (cases r1)
    case (Inl e)
    with assms Inr q f1 show ?thesis by (auto simp: step_def)
  next
    case r1: (Inr qt)
    show ?thesis
    proof (cases r2)
      case (Inl e)
      with assms Inr q r1 g f2 show ?thesis by (auto simp: step_def)
    next
      case r2: (Inr resp)
      with assms Inr q r1 g f2 show ?thesis
        by (auto simp: step_def Let_def split: sum.splits prod.splits)
    qed
  qed
qed

lemma steps_flags:
  "steps env qs = (env', Inr ds) \<Longrightarrow>
   length ds = length qs \<and> turn env' = turn env + int (length qs) \<and>
   max_turns env' = max_turns env \<and>
   (\<forall>k < length qs. ds ! k = (max_turns env \<le> turn env + int k + 1))"
proof (induction qs arbitrary: env ds)
  case Nil
  then show ?case by simp
next
  case (Cons q qs)
  obtain env1 r where s1: "step env q = (env1, r)" by (cases "step env q")
  with Cons.prems obtain obs rew d m where r: "r = Inr (obs, rew, d, m)"
    by (cases r) auto
  obtain env2 r2 where s2: "steps env1 qs = (env2, r2)" by (cases "steps env1 qs")
  with Cons.prems s1 r obtain ds' where r2: "r2 = Inr ds'" and ds: "ds = d # ds'" and e2: "env2 = env'"
    by (cases r2) auto
  from step_turn [OF s1] r
  have t1: "turn env1 = turn env + 1" "max_turns env1 = max_turns env"
    and d: "d = (max_turns env \<le> turn env + 1)" by simp_all
  from Cons.IH [of env1 ds'] s2 r2 e2
  have ih: "length ds' = length qs" "turn env' = turn env1 + int (length qs)"
    "max_turns env' = max_turns env1"
    "\<forall>k < length qs. ds' ! k = (max_turns env1 \<le> turn env1 + int k + 1)" by simp_all
  have "\<forall>k < length (q # qs). ds ! k = (max_turns env \<le> turn env + int k + 1)"
  proof (intro allI impI)
    fix k assume k: "k < length (q # qs)"
    show "ds ! k = (max_turns env \<le> turn env + int k + 1)"
    proof (cases k)
      case 0
      with ds d show ?thesis by simp
    next
      case (Suc k')
      with k ih(4) have "ds' ! k' = (max_turns env1 \<le> turn env1 + int k' + 1)" by simp
      with Suc ds t1 show ?thesis by (simp add: add.commute add.left_commute)
    qed
  qed
  with ih t1 ds show ?case by simp
qed


subsection \<open>The stages of a step\<close>

lemma step_query_accept:
  "tokens (history env) = Some old \<Longrightarrow> s \<noteq> [] \<Longrightarrow> tokenizer_encode env s = Inr qt \<Longrightarrow>
   qt \<noteq> [] \<Longrightarrow>
   step_query env s =
     (env\<lparr>history := (history env)\<lparr>text_h := text_h (history env) @ s,
        text_spans := text_spans (history env) @
          [(length (text_h (history env)), length (text_h (history env)) + length s)],
        tokens := Some (drop (length (old @ qt) - obs_dim) (old @ qt))\<rparr>\<rparr>, Inr qt)"
  by (simp add: step_query_def append_segment_accept)

lemma generate_model_fails:
  "tokens (history env) = Some t1 \<Longrightarrow> model_generate env t1 = Inl e \<Longrightarrow>
   generate env = (env, Inl e)"
  by (simp add: generate_def private_generate_def)

lemma generate_decode_fails:
  "tokens (history env) = Some t1 \<Longrightarrow> model_generate env t1 = Inr g \<Longrightarrow>
   tokenizer_decode env (drop (length t1) g) = Inl e \<Longrightarrow>
   generate env = (env, Inl e)"
  by (simp add: generate_def private_generate_def)

lemma generate_accept:
  "tokens (history env) = Some t1 \<Longrightarrow> model_generate env t1 = Inr g \<Longrightarrow>
   tokenizer_decode env (drop (length t1) g) = Inr rt \<Longrightarrow> rt \<noteq> [] \<Longrightarrow>
   drop (length t1) g \<noteq> [] \<Longrightarrow>
   generate env =
     (env\<lparr>history := (history env)\<lparr>text_h := text_h (history env) @ rt,
        text_spans := text_spans (history env) @
          [(length (text_h (history env)), length (text_h (history env)) + length rt)],
        tokens := Some (drop (length (t1 @ drop (length t1) g) - obs_dim)
                          (t1 @ drop (length t1) g))\<rparr>\<rparr>,
      Inr (drop (length t1) g))"
  by (simp add: generate_def private_generate_def append_segment_accept)

lemma step_generation_fails:
  assumes "tokens (history env) = Some old" and "py_str q = Inr s" and "s \<noteq> []"
    and "tokenizer_encode env s = Inr qt" and "qt \<noteq> []"
    and "t1 = drop (length (old @ qt) - obs_dim) (old @ qt)"
    and "model_generate env t1 = Inl e \<or>
         (\<exists>g. model_generate env t1 = Inr g \<and> tokenizer_decode env (drop (length t1) g) = Inl e)"
  shows "step env q =
     (env\<lparr>history := (history env)\<lparr>text_h := text_h (history env) @ s,
        text_spans := text_spans (history env) @
          [(length (text_h (history env)), length (text_h (history env)) + length s)],
        tokens := Some t1\<rparr>\<rparr>, Inl e)"
proof -
  let ?env1 = "env\<lparr>history := (history env)\<lparr>text_h := text_h (history env) @ s,
        text_spans := text_spans (history env) @
          [(length (text_h (history env)), length (text_h (history env)) + length s)],
        tokens := Some t1\<rparr>\<rparr>"
  have q: "step_query env s = (?env1, Inr qt)"
    using step_query_accept [OF assms(1) assms(3) assms(4) assms(5)] assms(6) by simp
  have t: "tokens (history ?env1) = Some t1" by simp
  have "generate ?env1 = (?env1, Inl e)"
    using assms(7)
  proof
    assume "model_generate env t1 = Inl e"
    then have "model_generate ?env1 t1 = Inl e" by simp
    from generate_model_fails [OF t this] show ?thesis .
  next
    assume "\<exists>g. model_generate env t1 = Inr g \<and> tokenizer_decode env (drop (length t1) g) = Inl e"
    then obtain g where "model_generate ?env1 t1 = Inr g"
      "tokenizer_decode ?env1 (drop (length t1) g) = Inl e" by auto
    from generate_decode_fails [OF t this] show ?thesis .
  qed
  with q assms(2) show ?thesis by (simp add: step_def)
qed

lemma step_after_generation:
  assumes "tokens (history env) = Some old" and "py_str q = Inr s" and "s \<noteq> []"
    and "tokenizer_encode env s = Inr qt" and "qt \<noteq> []"
    and "t1 = drop (length (old @ qt) - obs_dim) (old @ qt)"
    and "model_generate env t1 = Inr g" and "resp = drop (length t1) g" and "resp \<noteq> []"
    and "tokenizer_decode env resp = Inr rt" and "rt \<noteq> []"
    and "h2 = (history env)\<lparr>text_h := text_h (history env) @ s @ rt,
        text_spans := text_spans (history env) @
          [(length (text_h (history env)), length (text_h (history env)) + length s),
           (length (text_h (history env)) + length s,
            length (text_h (history env)) + length s + length rt)],
        tokens := Some (drop (length (t1 @ resp) - obs_dim) (t1 @ resp))\<rparr>"
  shows "step env q =
     (case reward_fn env qt resp of
        Inl e \<Rightarrow> (env\<lparr>history := h2\<rparr>, Inl e)
      | Inr rew \<Rightarrow>
          (env\<lparr>history := h2\<lparr>completed := Some (max_turns env \<le> turn env + 1)\<rparr>,
               turn := turn env + 1\<rparr>,
           Inr (fst (to_obs (h2\<lparr>completed := Some (max_turns env \<le> turn env + 1)\<rparr>)), rew,
                max_turns env \<le> turn env + 1,
                snd (to_obs (h2\<lparr>completed := Some (max_turns env \<le> turn env + 1)\<rparr>)))))"
proof -
  let ?env1 = "env\<lparr>history := (history env)\<lparr>text_h := text_h (history env) @ s,
        text_spans := text_spans (history env) @
          [(length (text_h (history env)), length (text_h (history env)) + length s)],
        tokens := Some t1\<rparr>\<rparr>"
  have q: "step_query env s = (?env1, Inr qt)"
    using step_query_accept [OF assms(1) assms(3) assms(4) assms(5)] assms(6) by simp
  have t: "tokens (history ?env1) = Some t1" by simp
  have m: "model_generate ?env1 t1 = Inr g" using assms(7) by simp
  have d: "tokenizer_decode ?env1 (drop (length t1) g) = Inr rt" using assms(8,10) by simp
  have ne: "drop (length t1) g \<noteq> []" using assms(8,9) by simp
  have g: "generate ?env1 = (env\<lparr>history := h2\<rparr>, Inr resp)"
    using generate_accept [OF t m d assms(11) ne] assms(8,12) by simp
  show ?thesis
    using q g assms(2)
    by (simp add: step_def Let_def split: sum.splits prod.splits)
qed


subsection \<open>The mask loop\<close>

lemma length_slice_assign: "length (slice_assign xs a b v) = length xs"
  by (simp add: slice_assign_def)

lemma nth_slice_assign:
  "p < length xs \<Longrightarrow> slice_assign xs a b v ! p = (if a \<le> p \<and> p < b then v else xs ! p)"
  by (simp add: slice_assign_def)

lemma length_mask_loop: "length (mask_loop i spans m) = length m"
  by (induction spans arbitrary: i m) (simp_all add: length_slice_assign)

lemma mask_loop_uncovered:
  "p < length m \<Longrightarrow> \<forall>k < length spans. \<not> (fst (spans ! k) \<le> p \<and> p < snd (spans ! k)) \<Longrightarrow>
   mask_loop i spans m ! p = m ! p"
proof (induction spans arbitrary: i m)
  case Nil
  then show ?case by simp
next
  case (Cons sli rest)
  from Cons.prems(2) [rule_format, of 0]
  have here: "\<not> (fst sli \<le> p \<and> p < snd sli)" by simp
  have later: "\<forall>k < length rest. \<not> (fst (rest ! k) \<le> p \<and> p < snd (rest ! k))"
  proof (intro allI impI)
    fix k assume "k < length rest"
    with Cons.prems(2) [rule_format, of "Suc k"]
    show "\<not> (fst (rest ! k) \<le> p \<and> p < snd (rest ! k))" by simp
  qed
  let ?m = "if i mod 2 = 0 then slice_assign m (fst sli) (snd sli) 1
            else slice_assign m (fst sli) (snd sli) 2"
  have len: "p < length ?m" using Cons.prems(1) by (simp add: length_slice_assign)
  have "mask_loop (i + 1) rest ?m ! p = ?m ! p" by (rule Cons.IH [OF len later])
  also have "?m ! p = m ! p"
    using here Cons.prems(1) by (auto simp: nth_slice_assign)
  finally show ?case by simp
qed

lemma mask_loop_covered:
  "p < length m \<Longrightarrow> j < length spans \<Longrightarrow> fst (spans ! j) \<le> p \<and> p < snd (spans ! j) \<Longrightarrow>
   \<forall>k < length spans. k \<noteq> j \<longrightarrow> \<not> (fst (spans ! k) \<le> p \<and> p < snd (spans ! k)) \<Longrightarrow>
   mask_loop i spans m ! p = (if even (i + j) then 1 else 2)"
proof (induction spans arbitrary: i m j)
  case Nil
  then show ?case by simp
next
  case (Cons sli rest)
  let ?m = "if i mod 2 = 0 then slice_assign m (fst sli) (snd sli) 1
            else slice_assign m (fst sli) (snd sli) 2"
  have len: "p < length ?m" using Cons.prems(1) by (simp add: length_slice_assign)
  show ?case
  proof (cases j)
    case 0
    with Cons.prems(3) have here: "fst sli \<le> p \<and> p < snd sli" by simp
    have later: "\<forall>k < length rest. \<not> (fst (rest ! k) \<le> p \<and> p < snd (rest ! k))"
    proof (intro allI impI)
      fix k assume "k < length rest"
      with Cons.prems(4) [rule_format, of "Suc k"] 0
      show "\<not> (fst (rest ! k) \<le> p \<and> p < snd (rest ! k))" by simp
    qed
    have "mask_loop (i + 1) rest ?m ! p = ?m ! p" by (rule mask_loop_uncovered [OF len later])
    also have "?m ! p = (if even i then 1 else 2)"
      using here Cons.prems(1) by (auto simp: nth_slice_assign even_iff_mod_2_eq_zero)
    finally show ?thesis using 0 by simp
  next
    case (Suc j')
    with Cons.prems(2) have j': "j' < length rest" by simp
    from Cons.prems(3) Suc have cov: "fst (rest ! j') \<le> p \<and> p < snd (rest ! j')" by simp
    have others: "\<forall>k < length rest. k \<noteq> j' \<longrightarrow> \<not> (fst (rest ! k) \<le> p \<and> p < snd (rest ! k))"
    proof (intro allI impI)
      fix k assume "k < length rest" "k \<noteq> j'"
      with Cons.prems(4) [rule_format, of "Suc k"] Suc
      show "\<not> (fst (rest ! k) \<le> p \<and> p < snd (rest ! k))" by simp
    qed
    from Cons.IH [OF len j' cov others, of "i + 1"] Suc show ?thesis by simp
  qed
qed

lemma mask_loop_spec:
  assumes "p < length m" and "m ! p = 0"
    and "\<forall>i j. i < j \<and> j < length spans \<longrightarrow> snd (spans ! i) \<le> fst (spans ! j)"
    and "\<forall>i < length spans. fst (spans ! i) < snd (spans ! i)"
  shows "mask_loop 0 spans m ! p = mask_spec spans p"
proof (cases "\<exists>j. covers spans j p")
  case False
  then have "\<forall>k < length spans. \<not> (fst (spans ! k) \<le> p \<and> p < snd (spans ! k))"
    by (auto simp: covers_def)
  from mask_loop_uncovered [OF assms(1) this] assms(2) False
  show ?thesis by (auto simp: mask_spec_def)
next
  case True
  then obtain j where j: "covers spans j p" ..
  have uniq: "k = j" if "covers spans k p" for k
  proof (rule ccontr)
    assume "k \<noteq> j"
    then consider "k < j" | "j < k" by linarith
    then show False
    proof cases
      case 1
      with assms(3) j have "snd (spans ! k) \<le> fst (spans ! j)" by (auto simp: covers_def)
      with that j show False by (auto simp: covers_def)
    next
      case 2
      with assms(3) that have "snd (spans ! j) \<le> fst (spans ! k)" by (auto simp: covers_def)
      with that j show False by (auto simp: covers_def)
    qed
  qed
  have "\<forall>k < length spans. k \<noteq> j \<longrightarrow> \<not> (fst (spans ! k) \<le> p \<and> p < snd (spans ! k))"
    using uniq by (auto simp: covers_def)
  with j mask_loop_covered [OF assms(1), of j spans 0]
  have val: "mask_loop 0 spans m ! p = (if even j then 1 else 2)" by (simp add: covers_def)
  have jl: "j < length spans" using j by (simp add: covers_def)
  show ?thesis
  proof (cases "even j")
    case True
    with j jl have "\<exists>i \<in> set [0..<length spans]. even i \<and> covers spans i p" by auto
    with val True show ?thesis by (simp add: mask_spec_def)
  next
    case False
    with uniq have "\<not> (\<exists>i \<in> set [0..<length spans]. even i \<and> covers spans i p)" by auto
    moreover from False j jl have "\<exists>i \<in> set [0..<length spans]. odd i \<and> covers spans i p" by auto
    ultimately show ?thesis using val False by (simp add: mask_spec_def)
  qed
qed

lemma mask_spec_range: "mask_spec spans p \<in> {0, 1, 2}"
  by (simp add: mask_spec_def)

subsection \<open>The invariant of a history\<close>

lemma hist_inv_init:
  assumes "TextHistory_init tx toks = Inr h"
  shows "hist_inv h"
proof (cases "tx = []")
  case True
  with assms show ?thesis by (auto simp: TextHistory_init_def hist_inv_def)
next
  case False
  with assms obtain ts where ts: "toks = Some ts"
    by (cases toks) (auto simp: TextHistory_init_def)
  let ?h0 = "\<lparr>text_h = tx, text_spans = [], tokens = Some ts, completed = Some False\<rparr>"
  obtain h1 r where a: "append_segment ?h0 tx ts = (h1, r)" by (cases "append_segment ?h0 tx ts")
  with assms False ts have "r = Inr ()" "h1 = h"
    by (auto simp: TextHistory_init_def split: sum.splits)
  with a append_segment_InrD [of ?h0 tx ts h "()"] False
  show ?thesis by (auto simp: hist_inv_def)
qed

lemma hist_inv_append_segment:
  assumes "hist_inv h" and "append_segment h tx toks = (h', Inr u)"
  shows "hist_inv h'"
proof -
  from append_segment_InrD [OF assms(2)] obtain old where
    ne: "tx \<noteq> []" and
    h': "h' = h\<lparr>text_h := text_h h @ tx,
        text_spans := text_spans h @ [(length (text_h h), length (text_h h) + length tx)],
        tokens := Some (drop (length (old @ toks) - obs_dim) (old @ toks))\<rparr>"
    by auto
  let ?n = "length (text_spans h)"
  from assms(1) have
    a: "\<forall>i < ?n. fst (text_spans h ! i) < snd (text_spans h ! i) \<and>
          snd (text_spans h ! i) \<le> length (text_h h)" and
    b: "\<forall>i j. i < j \<and> j < ?n \<longrightarrow> snd (text_spans h ! i) \<le> fst (text_spans h ! j)"
    by (auto simp: hist_inv_def)
  have 1: "\<exists>t. tokens h' = Some t \<and> length t \<le> obs_dim" by (simp add: h')
  have 2: "\<forall>i < length (text_spans h').
        fst (text_spans h' ! i) < snd (text_spans h' ! i) \<and>
        snd (text_spans h' ! i) \<le> length (text_h h')"
  proof (intro allI impI)
    fix i assume "i < length (text_spans h')"
    then have "i < ?n \<or> i = ?n" by (auto simp: h')
    then show "fst (text_spans h' ! i) < snd (text_spans h' ! i) \<and>
        snd (text_spans h' ! i) \<le> length (text_h h')"
    proof
      assume "i < ?n"
      with a show ?thesis by (auto simp: h' nth_append)
    next
      assume "i = ?n"
      with ne show ?thesis by (simp add: h' nth_append)
    qed
  qed
  have 3: "\<forall>i j. i < j \<and> j < length (text_spans h') \<longrightarrow>
        snd (text_spans h' ! i) \<le> fst (text_spans h' ! j)"
  proof (intro allI impI)
    fix i j assume ij: "i < j \<and> j < length (text_spans h')"
    then have "j < ?n \<or> j = ?n" by (auto simp: h')
    then show "snd (text_spans h' ! i) \<le> fst (text_spans h' ! j)"
    proof
      assume "j < ?n"
      with ij b show ?thesis by (auto simp: h' nth_append)
    next
      assume "j = ?n"
      with ij a show ?thesis by (auto simp: h' nth_append)
    qed
  qed
  from 1 2 3 show ?thesis by (simp add: hist_inv_def)
qed

lemma hist_inv_append_all:
  "hist_inv h \<Longrightarrow> append_all h segs = (h', Inr u) \<Longrightarrow> hist_inv h'"
proof (induction segs arbitrary: h)
  case Nil
  then show ?case by simp
next
  case (Cons seg segs)
  obtain tx toks where seg: "seg = (tx, toks)" by (cases seg)
  obtain h1 r where a: "append_segment h tx toks = (h1, r)" by (cases "append_segment h tx toks")
  with Cons.prems seg obtain u1 where r: "r = Inr u1" and rest: "append_all h1 segs = (h', Inr u)"
    by (cases r) auto
  from hist_inv_append_segment [OF Cons.prems(1)] a r have "hist_inv h1" by simp
  from Cons.IH [OF this rest] show ?case .
qed

lemma to_obs_shape:
  assumes "hist_inv h" and "to_obs h = (obs, msk)"
  shows "length obs = obs_dim \<and> length msk = obs_dim \<and> set msk \<subseteq> {0, 1, 2} \<and>
         (\<forall>p < obs_dim. msk ! p = mask_spec (text_spans h) p)"
proof -
  from assms(1) obtain t where t: "tokens h = Some t" "length t \<le> obs_dim"
    by (auto simp: hist_inv_def)
  let ?padded = "if length t < obs_dim then t @ replicate (obs_dim - length t) 0 else t"
  have lp: "length ?padded = obs_dim" using t(2) by auto
  from assms(2) t have obs: "obs = map real_of_int ?padded"
    and msk: "msk = mask_loop 0 (text_spans h) (map (\<lambda>x. 0) (map real_of_int ?padded))"
    by (auto simp: to_obs_def Let_def)
  have lo: "length obs = obs_dim" using obs lp by simp
  have lm: "length msk = obs_dim" using msk lp by (simp add: length_mask_loop)
  have vals: "\<forall>p < obs_dim. msk ! p = mask_spec (text_spans h) p"
  proof (intro allI impI)
    fix p assume p: "p < obs_dim"
    let ?z = "map (\<lambda>x. 0::real) (map real_of_int ?padded)"
    have 1: "p < length ?z" using p lp by simp
    have 2: "?z ! p = 0" using p lp by simp
    from assms(1) have
      3: "\<forall>i j. i < j \<and> j < length (text_spans h) \<longrightarrow>
            snd (text_spans h ! i) \<le> fst (text_spans h ! j)" and
      4: "\<forall>i < length (text_spans h). fst (text_spans h ! i) < snd (text_spans h ! i)"
      by (auto simp: hist_inv_def)
    from mask_loop_spec [OF 1 2 3 4] msk show "msk ! p = mask_spec (text_spans h) p" by simp
  qed
  have "set msk \<subseteq> {0, 1, 2}"
  proof
    fix x assume "x \<in> set msk"
    then obtain p where "p < length msk" "x = msk ! p" by (auto simp: in_set_conv_nth)
    with lm vals have "x = mask_spec (text_spans h) p" by simp
    with mask_spec_range [of "text_spans h" p] show "x \<in> {0, 1, 2}" by simp
  qed
  with lo lm vals show ?thesis by simp
qed

subsection \<open>Reset and the worked example\<close>

lemma reset_state:
  "reset env =
     (env\<lparr>history := \<lparr>text_h = [], text_spans = [], tokens = Some [], completed = None\<rparr>,
          turn := 0\<rparr>,
      Inr ([0, 0, 0, 0, 0, 0, 0, 0], [0, 0, 0, 0, 0, 0, 0, 0]))"
  by (simp add: reset_def TextHistory_init_def to_obs_def obs_dim_def Let_def numeral_eq_Suc)

lemma reset_idempotent: "reset (fst (reset env)) = reset env"
  by (simp add: reset_state)

lemma example_step_three_character_reply:
  "snd (reset (stub_env stub_decode_chars stub_reward 3 0)) =
     Inr ([0, 0, 0, 0, 0, 0, 0, 0], [0, 0, 0, 0, 0, 0, 0, 0]) \<and>
   snd (step (fst (reset (stub_env stub_decode_chars stub_reward 3 0))) (PyStr ''hi'')) =
     Inr ([1, 2, 3, 4, 5, 0, 0, 0], 0, False, [1, 1, 2, 2, 2, 0, 0, 0]) \<and>
   tokens (history (fst (step (fst (reset (stub_env stub_decode_chars stub_reward 3 0)))
     (PyStr ''hi'')))) = Some [1, 2, 3, 4, 5] \<and>
   turn (fst (step (fst (reset (stub_env stub_decode_chars stub_reward 3 0))) (PyStr ''hi''))) = 1"
  by code_simp

section \<open>The claims\<close>

text \<open>
  Claim C1 (the worked example). With \<open>obs_dim = 8\<close> and \<open>max_turns = 3\<close>,
  \<^verbatim>\<open>reset()\<close> returns eight zeros and a mask of eight zeros, and \<^verbatim>\<open>step("hi")\<close>, with
  a tokenizer that maps \<^verbatim>\<open>"hi"\<close> to \<open>[1, 2]\<close> and a generation service that returns
  \<open>[3, 4, 5]\<close>, is to give the tokens \<open>[1, 2, 3, 4, 5]\<close>, the mask
  \<open>[1, 1, 2, 2, 2, 0, 0, 0]\<close>, turn 1 and \<^verbatim>\<open>done == False\<close>. The docstring of
  \<^verbatim>\<open>to_obs\<close> promises that mask: 1 for the ids of the user, 2 for the ids of the
  model, 0 for the padding. The code writes the mask at the character offsets of the
  text spans. When the decoded reply has as many characters as tokens, the example comes
  out as stated (\<open>example_step_three_character_reply\<close>). When the tokenizer decodes
  \<open>[3, 4, 5]\<close> to a word of five characters, the tokens, the turn and the flag are as
  stated, and the mask is \<open>[1, 1, 2, 2, 2, 2, 2, 0]\<close>: two padding positions carry 2.
\<close>

theorem C1_mask_follows_text_offsets:
  "snd (reset (stub_env stub_decode_hello stub_reward 3 0)) =
     Inr ([0, 0, 0, 0, 0, 0, 0, 0], [0, 0, 0, 0, 0, 0, 0, 0]) \<and>
   snd (step (fst (reset (stub_env stub_decode_hello stub_reward 3 0))) (PyStr ''hi'')) =
     Inr ([1, 2, 3, 4, 5, 0, 0, 0], 0, False, [1, 1, 2, 2, 2, 2, 2, 0]) \<and>
   tokens (history (fst (step (fst (reset (stub_env stub_decode_hello stub_reward 3 0)))
     (PyStr ''hi'')))) = Some [1, 2, 3, 4, 5] \<and>
   turn (fst (step (fst (reset (stub_env stub_decode_hello stub_reward 3 0))) (PyStr ''hi''))) = 1"
  by code_simp

text \<open>
  Claim C2, amended. \<^verbatim>\<open>step\<close> coerces its argument with \<^verbatim>\<open>str\<close>. When
  \<^verbatim>\<open>str\<close> itself raises, \<^verbatim>\<open>step\<close> raises that exception and the environment is as
  it was. Otherwise \<^verbatim>\<open>step\<close> goes on with the coerced text: an exception of the
  tokenizer is passed on and an empty text or an empty token tensor is rejected with
  \<^verbatim>\<open>ValueError\<close>, both with the environment as it was; and when the services
  succeed with results that are not empty, the step returns, the turn is one more, and
  the history holds the coerced text as the new query segment, followed by the reply.
  For \<^verbatim>\<open>None\<close> the text is the four characters \<^verbatim>\<open>"None"\<close>. No input is rejected
  as such. (The history holds a token tensor, as every constructed history does.)
\<close>

theorem C2_step_coerces_with_str:
  assumes "tokens (history env) = Some old" and "n = length (text_h (history env))"
  shows "(py_str q = Inl e \<longrightarrow> step env q = (env, Inl e)) \<and>
         (py_str q = Inr s \<and> tokenizer_encode env s = Inl e \<longrightarrow> step env q = (env, Inl e)) \<and>
         (py_str q = Inr s \<and> tokenizer_encode env s = Inr qt \<and> (s = [] \<or> qt = []) \<longrightarrow>
            step env q = (env, Inl ValueError)) \<and>
         (py_str q = Inr s \<and> s \<noteq> [] \<and> tokenizer_encode env s = Inr qt \<and> qt \<noteq> [] \<and>
          t1 = drop (length (old @ qt) - obs_dim) (old @ qt) \<and>
          model_generate env t1 = Inr g \<and> resp = drop (length t1) g \<and> resp \<noteq> [] \<and>
          tokenizer_decode env resp = Inr rt \<and> rt \<noteq> [] \<and> reward_fn env qt resp = Inr rew \<longrightarrow>
            (\<exists>obs msk. snd (step env q) = Inr (obs, rew, max_turns env \<le> turn env + 1, msk)) \<and>
            turn (fst (step env q)) = turn env + 1 \<and>
            text_h (history (fst (step env q))) = text_h (history env) @ s @ rt \<and>
            text_spans (history (fst (step env q))) =
              text_spans (history env) @
                [(n, n + length s), (n + length s, n + length s + length rt)] \<and>
            tokens (history (fst (step env q))) =
              Some (drop (length (t1 @ resp) - obs_dim) (t1 @ resp))) \<and>
         (tokenizer_encode env ''None'' = Inr qt \<and> qt \<noteq> [] \<and>
          t1 = drop (length (old @ qt) - obs_dim) (old @ qt) \<and>
          model_generate env t1 = Inr g \<and> resp = drop (length t1) g \<and> resp \<noteq> [] \<and>
          tokenizer_decode env resp = Inr rt \<and> rt \<noteq> [] \<and> reward_fn env qt resp = Inr rew \<longrightarrow>
            (\<exists>obs msk. snd (step env PyNone) =
               Inr (obs, rew, max_turns env \<le> turn env + 1, msk)) \<and>
            text_h (history (fst (step env PyNone))) = text_h (history env) @ ''None'' @ rt \<and>
            text_spans (history (fst (step env PyNone))) =
              text_spans (history env) @ [(n, n + 4), (n + 4, n + 4 + length rt)])"
proof (intro conjI impI)
  assume "py_str q = Inl e"
  then show "step env q = (env, Inl e)" by (simp add: step_def)
next
  assume "py_str q = Inr s \<and> tokenizer_encode env s = Inl e"
  then show "step env q = (env, Inl e)"
    using assms(1) by (simp add: step_def step_query_def)
next
  assume a: "py_str q = Inr s \<and> tokenizer_encode env s = Inr qt \<and> (s = [] \<or> qt = [])"
  then have "append_segment (history env) s qt = (history env, Inl ValueError)"
    using append_segment_reject [of s qt "history env"] by blast
  with a show "step env q = (env, Inl ValueError)"
    using assms(1) by (simp add: step_def step_query_def)
next
  assume h: "py_str q = Inr s \<and> s \<noteq> [] \<and> tokenizer_encode env s = Inr qt \<and> qt \<noteq> [] \<and>
          t1 = drop (length (old @ qt) - obs_dim) (old @ qt) \<and>
          model_generate env t1 = Inr g \<and> resp = drop (length t1) g \<and> resp \<noteq> [] \<and>
          tokenizer_decode env resp = Inr rt \<and> rt \<noteq> [] \<and> reward_fn env qt resp = Inr rew"
  then have p: "py_str q = Inr s" and sne: "s \<noteq> []" and enc: "tokenizer_encode env s = Inr qt"
    and qne: "qt \<noteq> []" and t1: "t1 = drop (length (old @ qt) - obs_dim) (old @ qt)"
    and m: "model_generate env t1 = Inr g" and rd: "resp = drop (length t1) g"
    and rne: "resp \<noteq> []" and dec: "tokenizer_decode env resp = Inr rt" and rtne: "rt \<noteq> []"
    and rew: "reward_fn env qt resp = Inr rew" by blast+
  note sa = step_after_generation [OF assms(1) p sne enc qne t1 m rd rne dec rtne refl]
  show "\<exists>obs msk. snd (step env q) = Inr (obs, rew, max_turns env \<le> turn env + 1, msk)"
    using sa rew by simp
  show "turn (fst (step env q)) = turn env + 1" using sa rew by simp
  show "text_h (history (fst (step env q))) = text_h (history env) @ s @ rt"
    using sa rew by simp
  show "text_spans (history (fst (step env q))) =
      text_spans (history env) @ [(n, n + length s), (n + length s, n + length s + length rt)]"
    unfolding assms(2) using sa rew by simp
  show "tokens (history (fst (step env q))) =
      Some (drop (length (t1 @ resp) - obs_dim) (t1 @ resp))"
    using sa rew by simp
next
  assume h: "tokenizer_encode env ''None'' = Inr qt \<and> qt \<noteq> [] \<and>
          t1 = drop (length (old @ qt) - obs_dim) (old @ qt) \<and>
          model_generate env t1 = Inr g \<and> resp = drop (length t1) g \<and> resp \<noteq> [] \<and>
          tokenizer_decode env resp = Inr rt \<and> rt \<noteq> [] \<and> reward_fn env qt resp = Inr rew"
  then have enc: "tokenizer_encode env ''None'' = Inr qt"
    and qne: "qt \<noteq> []" and t1: "t1 = drop (length (old @ qt) - obs_dim) (old @ qt)"
    and m: "model_generate env t1 = Inr g" and rd: "resp = drop (length t1) g"
    and rne: "resp \<noteq> []" and dec: "tokenizer_decode env resp = Inr rt" and rtne: "rt \<noteq> []"
    and rew: "reward_fn env qt resp = Inr rew" by blast+
  have p: "py_str PyNone = Inr ''None''" by simp
  have sne: "''None'' \<noteq> []" by simp
  note sa = step_after_generation [OF assms(1) p sne enc qne t1 m rd rne dec rtne refl]
  show "\<exists>obs msk. snd (step env PyNone) = Inr (obs, rew, max_turns env \<le> turn env + 1, msk)"
    using sa rew by simp
  show "text_h (history (fst (step env PyNone))) = text_h (history env) @ ''None'' @ rt"
    using sa rew by simp
  show "text_spans (history (fst (step env PyNone))) =
      text_spans (history env) @ [(n, n + 4), (n + 4, n + 4 + length rt)]"
    unfolding assms(2) using sa rew by simp
qed

text \<open>The theorem at a concrete input.\<close>

theorem C2_step_coerces_with_str_witness:
  "step (stub_env stub_decode_chars stub_reward 3 0) (PyObject (Inl TypeError)) =
     (stub_env stub_decode_chars stub_reward 3 0, Inl TypeError) \<and>
   step ((stub_env stub_decode_chars stub_reward 3 0)\<lparr>tokenizer_encode := stub_encode_fails\<rparr>)
       (PyStr ''hi'') =
     ((stub_env stub_decode_chars stub_reward 3 0)\<lparr>tokenizer_encode := stub_encode_fails\<rparr>,
      Inl ServiceError) \<and>
   step (stub_env stub_decode_chars stub_reward 3 0) (PyStr []) =
     (stub_env stub_decode_chars stub_reward 3 0, Inl ValueError) \<and>
   turn (fst (step (stub_env stub_decode_chars stub_reward 3 0) (PyStr ''hi''))) = 1 \<and>
   text_h (history (fst (step (stub_env stub_decode_chars stub_reward 3 0) (PyStr ''hi'')))) =
     ''hixxx'' \<and>
   text_spans (history (fst (step (stub_env stub_decode_chars stub_reward 3 0)
     (PyStr ''hi'')))) = [(0, 2), (2, 5)] \<and>
   tokens (history (fst (step (stub_env stub_decode_chars stub_reward 3 0) (PyStr ''hi'')))) =
     Some [1, 2, 3, 4, 5] \<and>
   text_h (history (fst (step (stub_env stub_decode_chars stub_reward 3 0) PyNone))) =
     ''Nonexxx'' \<and>
   text_spans (history (fst (step (stub_env stub_decode_chars stub_reward 3 0) PyNone))) =
     [(0, 4), (4, 7)]"
proof -
  let ?E = "stub_env stub_decode_chars stub_reward 3 0"
  let ?T = "(stub_env stub_decode_chars stub_reward 3 0)\<lparr>tokenizer_encode := stub_encode_fails\<rparr>"
  have tk: "tokens (history ?E) = Some []" and n: "0 = length (text_h (history ?E))"
    and tkT: "tokens (history ?T) = Some []" and nT: "0 = length (text_h (history ?T))"
    by (simp_all add: stub_env_def)
  have 1: "py_str (PyObject (Inl TypeError)) = Inl TypeError" by simp
  have 2: "py_str (PyStr ''hi'') = Inr ''hi'' \<and> tokenizer_encode ?T ''hi'' = Inl ServiceError"
    by (simp add: stub_env_def stub_encode_fails_def)
  have 3: "py_str (PyStr []) = Inr [] \<and> tokenizer_encode ?E [] = Inr [] \<and>
      ([] = ([]::string) \<or> [] = ([]::int list))"
    by (simp add: stub_env_def stub_encode_def)
  have 4: "py_str (PyStr ''hi'') = Inr ''hi'' \<and> ''hi'' \<noteq> [] \<and>
      tokenizer_encode ?E ''hi'' = Inr [1, 2] \<and> [1, 2] \<noteq> ([]::int list) \<and>
      [1, 2] = drop (length ([] @ [1, 2::int]) - obs_dim) ([] @ [1, 2]) \<and>
      model_generate ?E [1, 2] = Inr [1, 2, 3, 4, 5] \<and>
      [3, 4, 5] = drop (length [1, 2::int]) [1, 2, 3, 4, 5::int] \<and> [3, 4, 5] \<noteq> ([]::int list) \<and>
      tokenizer_decode ?E [3, 4, 5] = Inr ''xxx'' \<and> ''xxx'' \<noteq> [] \<and>
      reward_fn ?E [1, 2] [3, 4, 5] = Inr 0"
    by (simp add: stub_env_def stub_encode_def stub_generate_def stub_decode_chars_def
        stub_reward_def obs_dim_def)
  have 5: "tokenizer_encode ?E ''None'' = Inr [7, 7, 7, 7] \<and> [7, 7, 7, 7] \<noteq> ([]::int list) \<and>
      [7, 7, 7, 7] = drop (length ([] @ [7, 7, 7, 7::int]) - obs_dim) ([] @ [7, 7, 7, 7]) \<and>
      model_generate ?E [7, 7, 7, 7] = Inr [7, 7, 7, 7, 3, 4, 5] \<and>
      [3, 4, 5] = drop (length [7, 7, 7, 7::int]) [7, 7, 7, 7, 3, 4, 5::int] \<and>
      [3, 4, 5] \<noteq> ([]::int list) \<and>
      tokenizer_decode ?E [3, 4, 5] = Inr ''xxx'' \<and> ''xxx'' \<noteq> [] \<and>
      reward_fn ?E [7, 7, 7, 7] [3, 4, 5] = Inr 0"
    by (simp add: stub_env_def stub_encode_def stub_generate_def stub_decode_chars_def
        stub_reward_def obs_dim_def)
  from C2_step_coerces_with_str [OF tk n, of "PyObject (Inl TypeError)" TypeError] 1
  have a: "step ?E (PyObject (Inl TypeError)) = (?E, Inl TypeError)" by blast
  from C2_step_coerces_with_str [OF tkT nT, of "PyStr ''hi''" ServiceError "''hi''"] 2
  have b: "step ?T (PyStr ''hi'') = (?T, Inl ServiceError)" by blast
  from C2_step_coerces_with_str [OF tk n, of "PyStr []" _ "[]" "[]"] 3
  have c: "step ?E (PyStr []) = (?E, Inl ValueError)" by blast
  from C2_step_coerces_with_str [OF tk n, of "PyStr ''hi''" _ "''hi''" "[1, 2]" "[1, 2]"
      "[1, 2, 3, 4, 5]" "[3, 4, 5]" "''xxx''" 0] 4
  have d: "turn (fst (step ?E (PyStr ''hi''))) = turn ?E + 1 \<and>
      text_h (history (fst (step ?E (PyStr ''hi'')))) = text_h (history ?E) @ ''hi'' @ ''xxx'' \<and>
      text_spans (history (fst (step ?E (PyStr ''hi'')))) =
        text_spans (history ?E) @
          [(0, 0 + length ''hi''), (0 + length ''hi'', 0 + length ''hi'' + length ''xxx'')] \<and>
      tokens (history (fst (step ?E (PyStr ''hi'')))) =
        Some (drop (length ([1, 2] @ [3, 4, 5::int]) - obs_dim) ([1, 2] @ [3, 4, 5]))"
    by blast
  from C2_step_coerces_with_str [OF tk n, of _ _ _ "[7, 7, 7, 7]" "[7, 7, 7, 7]"
      "[7, 7, 7, 7, 3, 4, 5]" "[3, 4, 5]" "''xxx''" 0] 5
  have e: "text_h (history (fst (step ?E PyNone))) = text_h (history ?E) @ ''None'' @ ''xxx'' \<and>
      text_spans (history (fst (step ?E PyNone))) =
        text_spans (history ?E) @ [(0, 0 + 4), (0 + 4, 0 + 4 + length ''xxx'')]"
    by blast
  from a b c d e show ?thesis by (simp add: stub_env_def obs_dim_def)
qed

text \<open>
  Claim C2 as stated fails: a \<^verbatim>\<open>None\<close> query does not raise. The step completes with
  the four-character query \<^verbatim>\<open>"None"\<close> in the history.
\<close>

theorem C2_none_query_is_accepted:
  "snd (step (stub_env stub_decode_chars stub_reward 3 0) PyNone) =
     Inr ([7, 7, 7, 7, 3, 4, 5, 0], 0, False, [1, 1, 1, 1, 2, 2, 2, 0]) \<and>
   text_h (history (fst (step (stub_env stub_decode_chars stub_reward 3 0) PyNone))) =
     ''Nonexxx''"
  by code_simp

text \<open>
  Claim C3. \<^verbatim>\<open>reset()\<close> installs a fresh empty history, sets the turn to 0 and returns
  the all-zero observation and mask, and a second \<^verbatim>\<open>reset()\<close> gives the same
  again. The claim also has \<^verbatim>\<open>done == False\<close> after a reset. The flag is \<^verbatim>\<open>history.completed\<close>, which the constructor assigns
  \<^verbatim>\<open>False\<close> only after its early return for an empty text: in the history that
  \<^verbatim>\<open>reset()\<close> installs, the attribute is not assigned at all.
\<close>

theorem C3_reset_leaves_completed_unassigned:
  "completed (history (fst (reset env))) = None \<and>
   turn (fst (reset env)) = 0 \<and>
   text_h (history (fst (reset env))) = [] \<and>
   text_spans (history (fst (reset env))) = [] \<and>
   tokens (history (fst (reset env))) = Some [] \<and>
   snd (reset env) = Inr ([0, 0, 0, 0, 0, 0, 0, 0], [0, 0, 0, 0, 0, 0, 0, 0]) \<and>
   reset (fst (reset env)) = reset env"
  by (simp add: reset_state)

text \<open>
  Claim C4. In a run of successful steps from turn 0, the step number \<open>k + 1\<close> returns
  \<^verbatim>\<open>done\<close> exactly when \<open>max_turns \<le> k + 1\<close>, and the turn counter ends at the number
  of steps: the flag is \<^verbatim>\<open>False\<close> before step number \<open>max_turns\<close> and \<^verbatim>\<open>True\<close>
  from it on. From a state with \<open>max_turns \<le> turn\<close>, any step, failed or not, leaves
  \<open>max_turns \<le> turn\<close>, and a successful one returns \<^verbatim>\<open>done == True\<close>.
\<close>

theorem C4_done_flag_tracks_turn:
  "(turn env = 0 \<and> steps env qs = (env', Inr ds) \<longrightarrow>
      length ds = length qs \<and> turn env' = int (length qs) \<and>
      (\<forall>k < length qs. ds ! k = (max_turns env \<le> int (Suc k)))) \<and>
   (max_turns envd \<le> turn envd \<and> step envd q = (envd', r) \<longrightarrow>
      max_turns envd' \<le> turn envd' \<and> (\<forall>obs rew d m. r = Inr (obs, rew, d, m) \<longrightarrow> d))"
proof (intro conjI impI)
  assume a: "turn env = 0 \<and> steps env qs = (env', Inr ds)"
  with steps_flags [of env qs env' ds]
  have f: "length ds = length qs" "turn env' = int (length qs)"
    "\<forall>k < length qs. ds ! k = (max_turns env \<le> turn env + int k + 1)" by simp_all
  show "length ds = length qs" by (rule f(1))
  show "turn env' = int (length qs)" by (rule f(2))
  show "\<forall>k < length qs. ds ! k = (max_turns env \<le> int (Suc k))"
    using f(3) a by (simp add: add.commute)
next
  assume b: "max_turns envd \<le> turn envd \<and> step envd q = (envd', r)"
  then have s: "step envd q = (envd', r)" and t: "max_turns envd \<le> turn envd" by simp_all
  from step_turn [OF s] t show "max_turns envd' \<le> turn envd'"
    by (cases r) auto
  from step_turn [OF s] t show "\<forall>obs rew d m. r = Inr (obs, rew, d, m) \<longrightarrow> d"
    by auto
qed

text \<open>The theorem at a concrete input.\<close>

theorem C4_done_flag_tracks_turn_witness:
  "turn (stub_env stub_decode_chars stub_reward 3 0) = 0 \<and>
   snd (steps (stub_env stub_decode_chars stub_reward 3 0)
          [PyStr ''hi'', PyStr ''hi'', PyStr ''hi'']) = Inr [False, False, True] \<and>
   turn (fst (steps (stub_env stub_decode_chars stub_reward 3 0)
          [PyStr ''hi'', PyStr ''hi'', PyStr ''hi''])) = 3 \<and>
   max_turns (stub_env stub_decode_chars stub_reward 3 3) \<le>
     turn (stub_env stub_decode_chars stub_reward 3 3) \<and>
   fst (snd (snd (projr (snd (step (stub_env stub_decode_chars stub_reward 3 3)
     (PyStr ''hi'')))))) \<and>
   max_turns (fst (step (stub_env stub_decode_chars stub_reward 3 3) (PyStr ''hi''))) \<le>
     turn (fst (step (stub_env stub_decode_chars stub_reward 3 3) (PyStr ''hi'')))"
proof -
  let ?E = "stub_env stub_decode_chars stub_reward 3 0"
  let ?Q = "[PyStr ''hi'', PyStr ''hi'', PyStr ''hi'']"
  let ?D = "stub_env stub_decode_chars stub_reward 3 3"
  have t0: "turn ?E = 0" by (simp add: stub_env_def)
  have r: "snd (steps ?E ?Q) = Inr [False, False, True]" by code_simp
  then have run: "steps ?E ?Q = (fst (steps ?E ?Q), Inr [False, False, True])"
    by (simp add: prod_eq_iff)
  have d: "max_turns ?D \<le> turn ?D" by (simp add: stub_env_def)
  have sd: "snd (step ?D (PyStr ''hi'')) =
      Inr ([1, 2, 3, 4, 5, 0, 0, 0], 0, True, [1, 1, 2, 2, 2, 0, 0, 0])" by code_simp
  then have st: "step ?D (PyStr ''hi'') = (fst (step ?D (PyStr ''hi'')),
      Inr ([1, 2, 3, 4, 5, 0, 0, 0], 0, True, [1, 1, 2, 2, 2, 0, 0, 0]))"
    by (simp add: prod_eq_iff)
  from C4_done_flag_tracks_turn [of ?E ?Q "fst (steps ?E ?Q)" "[False, False, True]"
      ?D "PyStr ''hi''" "fst (step ?D (PyStr ''hi''))"
      "Inr ([1, 2, 3, 4, 5, 0, 0, 0], 0, True, [1, 1, 2, 2, 2, 0, 0, 0])"]
    t0 run d st r sd
  show ?thesis by simp
qed

text \<open>
  Claim C5. \<^verbatim>\<open>append_segment\<close> with an empty text or an empty token tensor raises
  \<^verbatim>\<open>ValueError\<close> and leaves the history as it was. With a text and tokens that are
  not empty it succeeds: the text is added to the end of the text, its span is added to
  the spans, and the tokens are added and cut to the last \<open>obs_dim\<close> (on a history
  whose tokens are a tensor, as in every constructed history).
\<close>

theorem C5_append_segment_rejects_empty:
  "(tx = [] \<or> toks = [] \<longrightarrow> append_segment h tx toks = (h, Inl ValueError)) \<and>
   (tx \<noteq> [] \<and> toks \<noteq> [] \<and> tokens h = Some old \<longrightarrow>
      append_segment h tx toks =
        (h\<lparr>text_h := text_h h @ tx,
           text_spans := text_spans h @ [(length (text_h h), length (text_h h) + length tx)],
           tokens := Some (drop (length (old @ toks) - obs_dim) (old @ toks))\<rparr>, Inr ()))"
  using append_segment_reject [of tx toks h] append_segment_accept [of tx toks h old]
  by blast

text \<open>The theorem at a concrete input.\<close>

theorem C5_append_segment_rejects_empty_witness:
  "append_segment \<lparr>text_h = ''ab'', text_spans = [(0, 2)], tokens = Some [9], completed = None\<rparr>
     [] [1] =
     (\<lparr>text_h = ''ab'', text_spans = [(0, 2)], tokens = Some [9], completed = None\<rparr>,
      Inl ValueError) \<and>
   append_segment \<lparr>text_h = ''ab'', text_spans = [(0, 2)], tokens = Some [9], completed = None\<rparr>
     ''hi'' [] =
     (\<lparr>text_h = ''ab'', text_spans = [(0, 2)], tokens = Some [9], completed = None\<rparr>,
      Inl ValueError) \<and>
   append_segment \<lparr>text_h = ''ab'', text_spans = [(0, 2)], tokens = Some [9], completed = None\<rparr>
     ''hi'' [1, 2] =
     (\<lparr>text_h = ''abhi'', text_spans = [(0, 2), (2, 4)], tokens = Some [9, 1, 2],
       completed = None\<rparr>, Inr ())"
  using
    C5_append_segment_rejects_empty [of "[]" "[1]"
      "\<lparr>text_h = ''ab'', text_spans = [(0, 2)], tokens = Some [9], completed = None\<rparr>" "[9]"]
    C5_append_segment_rejects_empty [of "''hi''" "[]"
      "\<lparr>text_h = ''ab'', text_spans = [(0, 2)], tokens = Some [9], completed = None\<rparr>" "[9]"]
    C5_append_segment_rejects_empty [of "''hi''" "[1, 2]"
      "\<lparr>text_h = ''ab'', text_spans = [(0, 2)], tokens = Some [9], completed = None\<rparr>" "[9]"]
  by (simp add: obs_dim_def)

text \<open>
  Claim C6. After any sequence of successful appends to a fresh history, the tokens are
  the last \<open>obs_dim = 8\<close> of all the tokens appended, in their order (all of them when
  there are at most 8): never more than 8, and the oldest are the ones dropped.
\<close>

theorem C6_tokens_are_the_last_obs_dim:
  assumes "TextHistory_init [] None = Inr h0" and "append_all h0 segs = (h, Inr ())"
  shows "\<exists>t. tokens h = Some t \<and> length t \<le> obs_dim \<and> obs_dim = 8 \<and>
           t = drop (length (concat (map snd segs)) - obs_dim) (concat (map snd segs))"
proof -
  from assms(1) have t0: "tokens h0 = Some []" by (auto simp: TextHistory_init_def)
  have "length ([]::int list) \<le> obs_dim" by simp
  from append_all_tokens [OF t0 this assms(2)] show ?thesis by (simp add: obs_dim_def)
qed

text \<open>The theorem at a concrete input.\<close>

theorem C6_tokens_are_the_last_obs_dim_witness:
  "TextHistory_init [] None =
     Inr \<lparr>text_h = [], text_spans = [], tokens = Some [], completed = None\<rparr> \<and>
   snd (append_all \<lparr>text_h = [], text_spans = [], tokens = Some [], completed = None\<rparr>
     [(''hello'', [1, 2, 3, 4, 5]), (''world'', [6, 7, 8, 9, 10])]) = Inr () \<and>
   tokens (fst (append_all \<lparr>text_h = [], text_spans = [], tokens = Some [], completed = None\<rparr>
     [(''hello'', [1, 2, 3, 4, 5]), (''world'', [6, 7, 8, 9, 10])])) =
     Some [3, 4, 5, 6, 7, 8, 9, 10]"
proof -
  let ?h0 = "\<lparr>text_h = [], text_spans = [], tokens = Some [], completed = None\<rparr>"
  let ?segs = "[(''hello'', [1, 2, 3, 4, 5]), (''world'', [6, 7, 8, 9, 10::int])]"
  have i: "TextHistory_init [] None = Inr ?h0" by (simp add: TextHistory_init_def)
  have s: "snd (append_all ?h0 ?segs) = Inr ()"
    by (simp add: append_segment_def obs_dim_def Let_def)
  then have a: "append_all ?h0 ?segs = (fst (append_all ?h0 ?segs), Inr ())"
    by (simp add: prod_eq_iff)
  from C6_tokens_are_the_last_obs_dim [OF i a] i s show ?thesis
    by (simp add: obs_dim_def)
qed

text \<open>
  Claim C7. The constructor with an empty text gives empty text and tokens. With the text
  \<^verbatim>\<open>"hi"\<close> and the tokens \<open>[1, 2]\<close> it is to give the state of an empty history after
  one \<^verbatim>\<open>append_segment("hi", [1, 2])\<close>. The constructor stores the text and the tokens
  and then appends them again: the text is \<^verbatim>\<open>"hihi"\<close>, the only span is \<open>(2, 4)\<close>
  and the tokens are \<open>[1, 2, 1, 2]\<close>, where the append on the empty history gives
  \<^verbatim>\<open>"hi"\<close>, \<open>(0, 2)\<close> and \<open>[1, 2]\<close>.
\<close>

theorem C7_init_appends_its_segment_twice:
  "TextHistory_init ''hi'' (Some [1, 2]) =
     Inr \<lparr>text_h = ''hihi'', text_spans = [(2, 4)], tokens = Some [1, 2, 1, 2],
          completed = Some False\<rparr> \<and>
   TextHistory_init [] None =
     Inr \<lparr>text_h = [], text_spans = [], tokens = Some [], completed = None\<rparr> \<and>
   append_segment \<lparr>text_h = [], text_spans = [], tokens = Some [], completed = None\<rparr>
       ''hi'' [1, 2] =
     (\<lparr>text_h = ''hi'', text_spans = [(0, 2)], tokens = Some [1, 2], completed = None\<rparr>,
      Inr ())"
  by (simp add: TextHistory_init_def append_segment_def obs_dim_def Let_def)

text \<open>
  Claim C8, amended. A step whose query has been appended and whose generation service
  raises ends with that exception, the turn as it was, and the history holding the query
  segment and no response segment. A step whose scoring function raises ends with that
  exception, the turn as it was, and the history holding both the query segment and the
  response segment. Nothing is rolled back.
\<close>

theorem C8_failed_step_keeps_partial_history:
  assumes "tokens (history env) = Some old" and "py_str q = Inr s" and "s \<noteq> []"
    and "tokenizer_encode env s = Inr qt" and "qt \<noteq> []"
    and "t1 = drop (length (old @ qt) - obs_dim) (old @ qt)"
    and "n = length (text_h (history env))"
  shows "(model_generate env t1 = Inl e \<longrightarrow>
            step env q =
              (env\<lparr>history := (history env)\<lparr>text_h := text_h (history env) @ s,
                 text_spans := text_spans (history env) @ [(n, n + length s)],
                 tokens := Some t1\<rparr>\<rparr>, Inl e) \<and>
            turn (fst (step env q)) = turn env) \<and>
         (model_generate env t1 = Inr g \<and> resp = drop (length t1) g \<and> resp \<noteq> [] \<and>
          tokenizer_decode env resp = Inr rt \<and> rt \<noteq> [] \<and> reward_fn env qt resp = Inl e \<longrightarrow>
            step env q =
              (env\<lparr>history := (history env)\<lparr>text_h := text_h (history env) @ s @ rt,
                 text_spans := text_spans (history env) @
                   [(n, n + length s), (n + length s, n + length s + length rt)],
                 tokens := Some (drop (length (t1 @ resp) - obs_dim) (t1 @ resp))\<rparr>\<rparr>, Inl e) \<and>
            turn (fst (step env q)) = turn env)"
proof (intro conjI impI)
  assume m: "model_generate env t1 = Inl e"
  then have "model_generate env t1 = Inl e \<or>
     (\<exists>g. model_generate env t1 = Inr g \<and> tokenizer_decode env (drop (length t1) g) = Inl e)"
    by simp
  from step_generation_fails [OF assms(1-6) this]
  show "step env q =
      (env\<lparr>history := (history env)\<lparr>text_h := text_h (history env) @ s,
         text_spans := text_spans (history env) @ [(n, n + length s)],
         tokens := Some t1\<rparr>\<rparr>, Inl e)"
    by (simp add: assms(7))
  then show "turn (fst (step env q)) = turn env" by simp
next
  assume h: "model_generate env t1 = Inr g \<and> resp = drop (length t1) g \<and> resp \<noteq> [] \<and>
          tokenizer_decode env resp = Inr rt \<and> rt \<noteq> [] \<and> reward_fn env qt resp = Inl e"
  then have m: "model_generate env t1 = Inr g" and rd: "resp = drop (length t1) g"
    and rne: "resp \<noteq> []" and dec: "tokenizer_decode env resp = Inr rt" and rtne: "rt \<noteq> []"
    and rew: "reward_fn env qt resp = Inl e" by blast+
  note sa = step_after_generation [OF assms(1-6) m rd rne dec rtne refl]
  show "step env q =
      (env\<lparr>history := (history env)\<lparr>text_h := text_h (history env) @ s @ rt,
         text_spans := text_spans (history env) @
           [(n, n + length s), (n + length s, n + length s + length rt)],
         tokens := Some (drop (length (t1 @ resp) - obs_dim) (t1 @ resp))\<rparr>\<rparr>, Inl e)"
    unfolding assms(7) using sa rew by simp
  then show "turn (fst (step env q)) = turn env" by simp
qed

text \<open>The theorem at a concrete input.\<close>

theorem C8_failed_step_keeps_partial_history_witness:
  "step ((stub_env stub_decode_chars stub_reward 3 0)\<lparr>model_generate := stub_generate_fails\<rparr>)
     (PyStr ''hi'') =
     ((stub_env stub_decode_chars stub_reward 3 0)
        \<lparr>model_generate := stub_generate_fails,
         history := \<lparr>text_h = ''hi'', text_spans = [(0, 2)], tokens = Some [1, 2],
                      completed = None\<rparr>\<rparr>,
      Inl ServiceError) \<and>
   step (stub_env stub_decode_chars stub_reward_fails 3 0) (PyStr ''hi'') =
     ((stub_env stub_decode_chars stub_reward_fails 3 0)
        \<lparr>history := \<lparr>text_h = ''hixxx'', text_spans = [(0, 2), (2, 5)],
                      tokens = Some [1, 2, 3, 4, 5], completed = None\<rparr>\<rparr>,
      Inl ServiceError)"
proof -
  let ?G = "(stub_env stub_decode_chars stub_reward 3 0)\<lparr>model_generate := stub_generate_fails\<rparr>"
  let ?S = "stub_env stub_decode_chars stub_reward_fails 3 0"
  have g: "tokens (history ?G) = Some []" "py_str (PyStr ''hi'') = Inr ''hi''" "''hi'' \<noteq> []"
    "tokenizer_encode ?G ''hi'' = Inr [1, 2]" "[1, 2] \<noteq> ([]::int list)"
    "[1, 2] = drop (length ([] @ [1, 2::int]) - obs_dim) ([] @ [1, 2])"
    "0 = length (text_h (history ?G))"
    "model_generate ?G [1, 2] = Inl ServiceError"
    by (simp_all add: stub_env_def stub_encode_def stub_generate_fails_def obs_dim_def)
  have s: "tokens (history ?S) = Some []"
    "tokenizer_encode ?S ''hi'' = Inr [1, 2]"
    "0 = length (text_h (history ?S))"
    "model_generate ?S [1, 2] = Inr [1, 2, 3, 4, 5]"
    "[3, 4, 5] = drop (length [1, 2::int]) [1, 2, 3, 4, 5::int]" "[3, 4, 5] \<noteq> ([]::int list)"
    "tokenizer_decode ?S [3, 4, 5] = Inr ''xxx''" "''xxx'' \<noteq> []"
    "reward_fn ?S [1, 2] [3, 4, 5] = Inl ServiceError"
    by (simp_all add: stub_env_def stub_encode_def stub_generate_def stub_decode_chars_def
        stub_reward_fails_def)
  from C8_failed_step_keeps_partial_history [OF g(1-7), of ServiceError] g(8)
  have 1: "step ?G (PyStr ''hi'') =
     (?G\<lparr>history := \<lparr>text_h = ''hi'', text_spans = [(0, 2)], tokens = Some [1, 2],
                      completed = None\<rparr>\<rparr>, Inl ServiceError)"
    by (simp add: stub_env_def)
  from C8_failed_step_keeps_partial_history [OF s(1) g(2,3) s(2) g(5,6) s(3),
      of ServiceError "[1, 2, 3, 4, 5]" "[3, 4, 5]" "''xxx''"] s(4-9)
  have 2: "step ?S (PyStr ''hi'') =
     (?S\<lparr>history := \<lparr>text_h = ''hixxx'', text_spans = [(0, 2), (2, 5)],
                      tokens = Some [1, 2, 3, 4, 5], completed = None\<rparr>\<rparr>, Inl ServiceError)"
    by (simp add: stub_env_def obs_dim_def)
  from 1 2 show ?thesis by simp
qed

text \<open>
  Claim C8 as stated fails for the scoring stage: when the reward function raises, the
  response segment has already been appended.
\<close>

theorem C8_scoring_failure_keeps_response:
  "snd (step (stub_env stub_decode_chars stub_reward_fails 3 0) (PyStr ''hi'')) =
     Inl ServiceError \<and>
   text_spans (history (fst (step (stub_env stub_decode_chars stub_reward_fails 3 0)
     (PyStr ''hi'')))) = [(0, 2), (2, 5)] \<and>
   tokens (history (fst (step (stub_env stub_decode_chars stub_reward_fails 3 0)
     (PyStr ''hi'')))) = Some [1, 2, 3, 4, 5] \<and>
   turn (fst (step (stub_env stub_decode_chars stub_reward_fails 3 0) (PyStr ''hi''))) = 0"
  by code_simp

text \<open>
  Claim C9. For a history made by the constructor and any sequence of successful appends,
  \<^verbatim>\<open>to_obs\<close> returns an observation and a mask of length \<open>obs_dim = 8\<close>; the mask
  entries are among 0, 1 and 2, and each is the value the specification gives for its
  position, whatever the span offsets.
\<close>

theorem C9_to_obs_shape_and_mask:
  assumes "TextHistory_init tx0 toks0 = Inr h0" and "append_all h0 segs = (h, Inr ())"
    and "to_obs h = (obs, msk)"
  shows "length obs = obs_dim \<and> length msk = obs_dim \<and> obs_dim = 8 \<and> set msk \<subseteq> {0, 1, 2} \<and>
         (\<forall>p < obs_dim. msk ! p = mask_spec (text_spans h) p)"
proof -
  from hist_inv_init [OF assms(1)] have "hist_inv h0" .
  from hist_inv_append_all [OF this assms(2)] have "hist_inv h" .
  from to_obs_shape [OF this assms(3)] show ?thesis by (simp add: obs_dim_def)
qed

text \<open>The theorem at a concrete input.\<close>

theorem C9_to_obs_shape_and_mask_witness:
  "TextHistory_init [] None =
     Inr \<lparr>text_h = [], text_spans = [], tokens = Some [], completed = None\<rparr> \<and>
   append_all \<lparr>text_h = [], text_spans = [], tokens = Some [], completed = None\<rparr>
     [(''hello'', [1, 2, 3]), (''wonderful'', [4, 5, 6, 7, 8, 9, 10])] =
     (\<lparr>text_h = ''hellowonderful'', text_spans = [(0, 5), (5, 14)],
       tokens = Some [3, 4, 5, 6, 7, 8, 9, 10], completed = None\<rparr>, Inr ()) \<and>
   to_obs \<lparr>text_h = ''hellowonderful'', text_spans = [(0, 5), (5, 14)],
       tokens = Some [3, 4, 5, 6, 7, 8, 9, 10], completed = None\<rparr> =
     ([3, 4, 5, 6, 7, 8, 9, 10], [1, 1, 1, 1, 1, 2, 2, 2]) \<and>
   length [3, 4, 5, 6, 7, 8, 9, 10 :: real] = obs_dim \<and>
   length [1, 1, 1, 1, 1, 2, 2, 2 :: real] = obs_dim \<and>
   set [1, 1, 1, 1, 1, 2, 2, 2 :: real] \<subseteq> {0, 1, 2}"
proof -
  let ?fresh = "\<lparr>text_h = [], text_spans = [], tokens = Some [], completed = None\<rparr>"
  let ?segs = "[(''hello'', [1, 2, 3]), (''wonderful'', [4, 5, 6, 7, 8, 9, 10::int])]"
  let ?hist = "\<lparr>text_h = ''hellowonderful'', text_spans = [(0, 5), (5, 14)],
       tokens = Some [3, 4, 5, 6, 7, 8, 9, 10], completed = None\<rparr>"
  have i: "TextHistory_init [] None = Inr ?fresh" by (simp add: TextHistory_init_def)
  have a: "append_all ?fresh ?segs = (?hist, Inr ())" by code_simp
  have o: "to_obs ?hist = ([3, 4, 5, 6, 7, 8, 9, 10], [1, 1, 1, 1, 1, 2, 2, 2])" by code_simp
  from C9_to_obs_shape_and_mask [OF i a o] have
    "length [3, 4, 5, 6, 7, 8, 9, 10 :: real] = obs_dim \<and>
     length [1, 1, 1, 1, 1, 2, 2, 2 :: real] = obs_dim \<and>
     set [1, 1, 1, 1, 1, 2, 2, 2 :: real] \<subseteq> {0, 1, 2}" by blast
  with i a o show ?thesis by blast
qed



end
